theory Spec2Isabelle
  imports Complex_Main
begin

section \<open>Data model\<close>

text \<open>
  The server of \<^verbatim>\<open>src/main.py\<close> matches SIFT features of a live video frame against
  two reference logos on a background thread and serves the annotated frame as an MJPEG
  stream. OpenCV is an external library: images, keypoints and descriptors are plain
  data here, the distances the matcher returns are real numbers (its own
  single-precision rounding is not modelled), and the OpenCV calls whose result
  depends on pixel content are fields of the record \<open>cv_env\<close>. The arithmetic of
  \<^verbatim>\<open>main.py\<close> itself is Python's, in double precision.
\<close>

type_synonym image = "nat list list"
type_synonym keypoint = "real \<times> real"
type_synonym descriptor = "real list"
type_synonym bytes = string

datatype exn =
    CvError
  | FileNotFoundError
  | RuntimeError

text \<open>A \<^verbatim>\<open>cv2.DMatch\<close>: indices into the query and the train descriptors, and a distance.\<close>

record dmatch =
  queryIdx :: nat
  trainIdx :: nat
  distance :: real

subsection \<open>Double precision\<close>

text \<open>
  A Python \<^verbatim>\<open>float\<close> is an IEEE 754 double: a real number with 53 significant bits.
  A literal and the result of a multiplication are rounded to the nearest double, a tie
  going to the even significand. The products of the ratio test stay in the normal
  range of doubles, so overflow and subnormal results are left out.
\<close>

definition round_half_even :: "real \<Rightarrow> int" where
  "round_half_even x =
     (let f = \<lfloor>x\<rfloor> in
      if x - of_int f < 1 / 2 then f
      else if x - of_int f > 1 / 2 then f + 1
      else if even f then f else f + 1)"

definition round_double :: "real \<Rightarrow> real" where
  "round_double x =
     (if x = 0 then 0
      else let e = \<lfloor>log 2 \<bar>x\<bar>\<rfloor> in
        of_int (round_half_even (x / 2 powr (of_int e - 52))) * 2 powr (of_int e - 52))"

definition double_mul :: "real \<Rightarrow> real \<Rightarrow> real" where
  "double_mul x y = round_double (x * y)"

subsection \<open>Configuration\<close>

definition RATIO_THRESH :: real where
  "RATIO_THRESH = round_double 0.67"

definition FRAME_SIZE :: "nat \<times> nat" where
  "FRAME_SIZE = (320, 240)"

definition JPEG_QUALITY :: nat where
  "JPEG_QUALITY = 90"

definition IMWRITE_JPEG_QUALITY :: nat where
  "IMWRITE_JPEG_QUALITY = 1"

section \<open>The brute-force matcher\<close>

text \<open>
  \<^verbatim>\<open>matcher = cv2.BFMatcher()\<close> compares descriptors with the L2 norm and no cross
  check. \<^verbatim>\<open>knnMatch(query, train, k)\<close> returns nothing when either descriptor matrix is
  empty (Python's \<^verbatim>\<open>None\<close> is passed as an empty matrix), raises when the matrices
  differ in their number of columns, and otherwise returns, for every query row in
  order, its \<open>k\<close> nearest train rows by ascending distance (fewer when the train matrix
  has fewer rows).
\<close>

definition norm_L2 :: "descriptor \<Rightarrow> descriptor \<Rightarrow> real" where
  "norm_L2 a b = sqrt (\<Sum>(x, y) \<leftarrow> zip a b. (x - y)\<^sup>2)"

fun rows :: "descriptor list option \<Rightarrow> descriptor list" where
  "rows None = []"
| "rows (Some d) = d"

definition neighbours :: "nat \<Rightarrow> descriptor \<Rightarrow> descriptor list \<Rightarrow> dmatch list" where
  "neighbours i q train =
     sort_key distance
       (map (\<lambda>(j, t). \<lparr>queryIdx = i, trainIdx = j, distance = norm_L2 q t\<rparr>)
         (enumerate 0 train))"

definition knnMatch ::
  "descriptor list option \<Rightarrow> descriptor list option \<Rightarrow> nat \<Rightarrow> exn + dmatch list list" where
  "knnMatch queryDescriptors trainDescriptors k =
     (let query = rows queryDescriptors; train = rows trainDescriptors in
      if train = [] \<or> query = [] then Inr []
      else if k = 0 then Inl CvError
      else if list_ex (\<lambda>q. list_ex (\<lambda>t. length q \<noteq> length t) train) query then Inl CvError
      else Inr (map (\<lambda>(i, q). take k (neighbours i q train)) (enumerate 0 query)))"

subsection \<open>Lowe's ratio test\<close>

text \<open>
  \<^verbatim>\<open>[m[0] for m in matches if len(m) == 2 and m[0].distance < RATIO_THRESH * m[1].distance]\<close>
\<close>

definition ratio_test :: "dmatch list \<Rightarrow> bool" where
  "ratio_test m \<longleftrightarrow>
     length m = 2 \<and> distance (m ! 0) < double_mul RATIO_THRESH (distance (m ! 1))"

definition good_matches :: "dmatch list list \<Rightarrow> dmatch list" where
  "good_matches matches = map (\<lambda>m. m ! 0) (filter ratio_test matches)"



section \<open>External calls and shared state\<close>

text \<open>
  The OpenCV and NumPy calls of \<^verbatim>\<open>main.py\<close>. Feature extraction and drawing can raise
  (\<open>Inl\<close>); decoding and encoding signal failure in their result, as OpenCV does
  (\<^verbatim>\<open>imread\<close> and \<^verbatim>\<open>imdecode\<close> return \<^verbatim>\<open>None\<close>, \<^verbatim>\<open>imencode\<close> returns a flag).
  \<^verbatim>\<open>detectAndCompute\<close> returns \<^verbatim>\<open>None\<close> for the descriptors of an image without keypoints.
  The field \<open>cv_imdecode\<close> is the decoder on a buffer that is not empty; on an empty
  buffer \<^verbatim>\<open>cv2.imdecode\<close> raises, which \<open>imdecode\<close> below adds.
\<close>

record cv_env =
  cv_resize :: "image \<Rightarrow> nat \<times> nat \<Rightarrow> image"
  sift_detectAndCompute :: "image \<Rightarrow> exn + keypoint list \<times> descriptor list option"
  cv_drawMatches ::
    "image option \<Rightarrow> keypoint list option \<Rightarrow> image \<Rightarrow> keypoint list \<Rightarrow> dmatch list
      \<Rightarrow> exn + image"
  np_hstack :: "image \<Rightarrow> image \<Rightarrow> image"
  cv_putText :: "image \<Rightarrow> string \<Rightarrow> nat \<times> nat \<Rightarrow> image"
  cv_imread :: "string \<Rightarrow> image option"
  cv_imdecode :: "bytes \<Rightarrow> image option"
  cv_imencode :: "string \<Rightarrow> image \<Rightarrow> nat list \<Rightarrow> bytes option"

definition imdecode :: "cv_env \<Rightarrow> bytes \<Rightarrow> exn + image option" where
  "imdecode cv buf = (if buf = [] then Inl CvError else Inr (cv_imdecode cv buf))"

text \<open>The dictionary \<^verbatim>\<open>shared_stats\<close> and the module's global variables.\<close>

record stats =
  fps :: real
  logo1_matches :: nat
  logo2_matches :: nat
  last_update :: real
  mem_mb :: real

record globals =
  cap_set :: bool
  cap_released :: bool
  logo1_img :: "image option"
  logo2_img :: "image option"
  kp1 :: "keypoint list option"
  desc1 :: "descriptor list option"
  kp2 :: "keypoint list option"
  desc2 :: "descriptor list option"
  shared_stats :: stats
  last_frame :: "image option"
  stop_event :: bool

definition initial_globals :: globals where
  "initial_globals =
     \<lparr>cap_set = False, cap_released = False,
      logo1_img = None, logo2_img = None,
      kp1 = None, desc1 = None, kp2 = None, desc2 = None,
      shared_stats =
        \<lparr>fps = 0, logo1_matches = 0, logo2_matches = 0, last_update = 0, mem_mb = 0\<rparr>,
      last_frame = None,
      stop_event = False\<rparr>"

text \<open>
  What one iteration of the processing loop reads from outside the program: whether the
  capture is open, the result \<^verbatim>\<open>(ret, frame)\<close> of \<^verbatim>\<open>cap.read()\<close>, the two clock readings
  and the resident set size in bytes (\<open>None\<close> without \<^verbatim>\<open>psutil\<close>).
\<close>

record cycle_env =
  cap_isOpened :: bool
  cap_read :: "bool \<times> image option"
  time_publish :: real
  rss :: "nat option"
  time_now :: real

record loop_locals =
  fps_counter :: nat
  last_fps_time :: real

section \<open>The processing loop\<close>

definition update_mem_stat :: "nat option \<Rightarrow> real" where
  "update_mem_stat r = (case r of Some b \<Rightarrow> real b / (1024 * 1024) | None \<Rightarrow> 0)"

text \<open>Python's \<^verbatim>\<open>str\<close> of a non-negative integer, for the overlay text.\<close>

fun str_nat :: "nat \<Rightarrow> string" where
  "str_nat n =
     (if n < 10 then [char_of (48 + n)]
      else str_nat (n div 10) @ [char_of (48 + n mod 10)])"

declare str_nat.simps [simp del]

definition and_then :: "exn + 'a \<Rightarrow> ('a \<Rightarrow> exn + 'b) \<Rightarrow> exn + 'b" where
  "and_then m f = (case m of Inl e \<Rightarrow> Inl e | Inr x \<Rightarrow> f x)"

text \<open>
  The body of \<^verbatim>\<open>if desc_frame is not None:\<close> (lines 133 to 167): match both logos,
  draw, compose the two views, then publish the statistics and the frame. Nothing is
  stored before the last fallible call has returned.
\<close>

definition match_and_publish ::
  "cv_env \<Rightarrow> cycle_env \<Rightarrow> image \<Rightarrow> keypoint list \<Rightarrow> descriptor list \<Rightarrow> globals
    \<Rightarrow> exn + globals" where
  "match_and_publish cv c frame kp_frame desc_frame g =
     and_then (knnMatch (desc1 g) (Some desc_frame) 2) (\<lambda>matches1.
     let good1 = good_matches matches1 in
     and_then (knnMatch (desc2 g) (Some desc_frame) 2) (\<lambda>matches2.
     let good2 = good_matches matches2 in
     and_then (cv_drawMatches cv (logo1_img g) (kp1 g) frame kp_frame good1) (\<lambda>img_matches1.
     and_then (cv_drawMatches cv (logo2_img g) (kp2 g) frame kp_frame good2) (\<lambda>img_matches2.
     let (view_w, view_h) = FRAME_SIZE;
         img_matches1 = cv_resize cv img_matches1 (view_w, view_h);
         img_matches2 = cv_resize cv img_matches2 (view_w, view_h);
         out_frame = np_hstack cv img_matches1 img_matches2;
         out_frame = cv_putText cv out_frame (''L1: '' @ str_nat (length good1)) (10, 20);
         out_frame =
           cv_putText cv out_frame (''L2: '' @ str_nat (length good2)) (view_w + 10, 20)
     in Inr (g\<lparr>shared_stats := (shared_stats g)
                 \<lparr>logo1_matches := length good1,
                  logo2_matches := length good2,
                  last_update := time_publish c,
                  mem_mb := update_mem_stat (rss c)\<rparr>,
               last_frame := Some out_frame\<rparr>)))))"

text \<open>Lines 170 to 177: count the cycle, and commit the rate once a second has passed.\<close>

definition fps_accounting :: "cycle_env \<Rightarrow> globals \<Rightarrow> loop_locals \<Rightarrow> globals \<times> loop_locals" where
  "fps_accounting c g l =
     (let n = fps_counter l + 1; now = time_now c in
      if now - last_fps_time l \<ge> 1
      then (g\<lparr>shared_stats := (shared_stats g)\<lparr>fps := real n / (now - last_fps_time l)\<rparr>\<rparr>,
            l\<lparr>fps_counter := 0, last_fps_time := now\<rparr>)
      else (g, l\<lparr>fps_counter := n\<rparr>))"

text \<open>
  The body of the \<^verbatim>\<open>while\<close> loop. The two \<^verbatim>\<open>continue\<close> branches (capture not ready,
  nothing read) only sleep and leave every variable as it is.
\<close>

definition processing_cycle ::
  "cv_env \<Rightarrow> cycle_env \<Rightarrow> globals \<Rightarrow> loop_locals \<Rightarrow> exn + globals \<times> loop_locals" where
  "processing_cycle cv c g l =
     (if \<not> cap_set g \<or> \<not> cap_isOpened c then Inr (g, l)
      else case cap_read c of
        (ret, None) \<Rightarrow> Inr (g, l)
      | (ret, Some fr) \<Rightarrow>
          if \<not> ret then Inr (g, l)
          else
            let frame = cv_resize cv fr FRAME_SIZE in
            and_then (sift_detectAndCompute cv frame) (\<lambda>(kp_frame, desc_frame).
            and_then (case desc_frame of
                   Some d \<Rightarrow> match_and_publish cv c frame kp_frame d g
                 | None \<Rightarrow> Inr g) (\<lambda>g'.
            Inr (fps_accounting c g' l))))"

text \<open>
  The frame source is absent in an iteration when the capture is missing or closed,
  or the read returns no frame: the two \<^verbatim>\<open>continue\<close> branches of the loop.
\<close>

definition absent :: "globals \<Rightarrow> cycle_env \<Rightarrow> bool" where
  "absent g c \<longleftrightarrow>
     \<not> cap_set g \<or> \<not> cap_isOpened c \<or> \<not> fst (cap_read c) \<or> snd (cap_read c) = None"

text \<open>
  The loop runs until the stop event is set or an exception leaves it; there is no
  \<^verbatim>\<open>try\<close> in \<^verbatim>\<open>processing_loop\<close>. The list holds what the next iterations read from
  outside; the loop is still \<open>Running\<close> when the list is used up. The capture is
  released only after a regular exit.
\<close>

datatype loop_outcome =
    Running globals loop_locals
  | Stopped globals
  | Crashed exn globals

definition loop_iteration :: "cv_env \<Rightarrow> cycle_env \<Rightarrow> globals \<Rightarrow> loop_locals \<Rightarrow> loop_outcome" where
  "loop_iteration cv c g l =
     (if stop_event g
      then Stopped (if cap_set g then g\<lparr>cap_released := True\<rparr> else g)
      else case processing_cycle cv c g l of
             Inl e \<Rightarrow> Crashed e g
           | Inr (g', l') \<Rightarrow> Running g' l')"

fun processing_loop :: "cv_env \<Rightarrow> cycle_env list \<Rightarrow> globals \<Rightarrow> loop_locals \<Rightarrow> loop_outcome" where
  "processing_loop cv [] g l = Running g l"
| "processing_loop cv (c # cs) g l =
     (case loop_iteration cv c g l of
        Running g' l' \<Rightarrow> processing_loop cv cs g' l'
      | Stopped g' \<Rightarrow> Stopped g'
      | Crashed e g' \<Rightarrow> Crashed e g')"

section \<open>The MJPEG generator\<close>

definition CRLF :: bytes where
  "CRLF = [CHR 0x0D, CHR 0x0A]"

definition mjpeg_chunk :: "bytes \<Rightarrow> bytes" where
  "mjpeg_chunk jpg_bytes =
     ''--'' @ ''frame'' @ CRLF @ ''Content-Type: image/jpeg'' @ CRLF @ CRLF @ jpg_bytes @ CRLF"

text \<open>
  What a viewer's generator does, in order: a pause of \<^verbatim>\<open>time.sleep(0.02)\<close> or a chunk
  it yields. The list holds the globals as each iteration of its loop finds them; a
  failed encoding goes to the next iteration with neither a pause nor a chunk.
\<close>

datatype gen_event = Sleep real | Yield bytes

fun mjpeg_generator :: "cv_env \<Rightarrow> globals list \<Rightarrow> gen_event list" where
  "mjpeg_generator cv [] = []"
| "mjpeg_generator cv (g # gs) =
     (if stop_event g then []
      else case last_frame g of
        None \<Rightarrow> Sleep 0.02 # mjpeg_generator cv gs
      | Some frame \<Rightarrow>
          (case cv_imencode cv ''.jpg'' frame [IMWRITE_JPEG_QUALITY, JPEG_QUALITY] of
             None \<Rightarrow> mjpeg_generator cv gs
           | Some buffer \<Rightarrow> Yield (mjpeg_chunk buffer) # mjpeg_generator cv gs))"

section \<open>Loading and reloading the logos\<close>

definition LOGO1_PATH :: string where
  "LOGO1_PATH = ''Coca_Cola_Logo.jpg''"

definition LOGO2_PATH :: string where
  "LOGO2_PATH = ''logo2.jpg''"

text \<open>
  A function that raises leaves the globals as they are at the raise, so each one
  returns its result together with the globals.
\<close>

definition load_logos :: "cv_env \<Rightarrow> string \<Rightarrow> string \<Rightarrow> globals \<Rightarrow> (exn + unit) \<times> globals" where
  "load_logos cv path1 path2 g =
     (case (cv_imread cv path1, cv_imread cv path2) of
        (Some img1, Some img2) \<Rightarrow>
          (let g = g\<lparr>logo1_img := Some img1, logo2_img := Some img2\<rparr> in
           case sift_detectAndCompute cv img1 of
             Inl e \<Rightarrow> (Inl e, g)
           | Inr (k1, d1) \<Rightarrow>
               (let g = g\<lparr>kp1 := Some k1, desc1 := d1\<rparr> in
                case sift_detectAndCompute cv img2 of
                  Inl e \<Rightarrow> (Inl e, g)
                | Inr (k2, d2) \<Rightarrow> (Inr (), g\<lparr>kp2 := Some k2, desc2 := d2\<rparr>)))
      | _ \<Rightarrow> (Inl FileNotFoundError, g))"

definition startup_event :: "cv_env \<Rightarrow> bool \<Rightarrow> globals \<Rightarrow> (exn + unit) \<times> globals" where
  "startup_event cv opened g =
     (case load_logos cv LOGO1_PATH LOGO2_PATH g of
        (Inl e, g) \<Rightarrow> (Inl e, g)
      | (Inr u, g) \<Rightarrow>
          (let g = g\<lparr>cap_set := True, cap_released := False\<rparr> in
           if \<not> opened then (Inl RuntimeError, g)
           else (Inr (), g\<lparr>stop_event := False\<rparr>)))"

definition shutdown_event :: "globals \<Rightarrow> globals" where
  "shutdown_event g = g\<lparr>stop_event := True\<rparr>"

definition get_stats :: "globals \<Rightarrow> stats" where
  "get_stats g = shared_stats g"

text \<open>
  The form fields of \<^verbatim>\<open>POST /reload-logos\<close>. For each slot the handler decodes the
  uploaded bytes when a file is there, and otherwise reads the path when it is a
  non-empty string (lines 268 to 280); \<open>decode_slot\<close> also returns the paths it gave to
  \<^verbatim>\<open>cv2.imread\<close>. The decoder raises on an upload of no bytes.
\<close>

record reload_request =
  logo1_file :: "bytes option"
  logo2_file :: "bytes option"
  logo1_path :: "string option"
  logo2_path :: "string option"

definition decode_slot ::
  "cv_env \<Rightarrow> bytes option \<Rightarrow> string option \<Rightarrow> (exn + image option) \<times> string list" where
  "decode_slot cv file path =
     (case file of
        Some data \<Rightarrow> (imdecode cv data, [])
      | None \<Rightarrow>
          (case path of
             Some p \<Rightarrow> if p \<noteq> [] then (Inr (cv_imread cv p), [p]) else (Inr None, [])
           | None \<Rightarrow> (Inr None, [])))"

text \<open>Lines 285 to 287 and 288 to 290: store the image, then its features.\<close>

definition swap_logo1 :: "cv_env \<Rightarrow> image option \<Rightarrow> globals \<Rightarrow> (exn + unit) \<times> globals" where
  "swap_logo1 cv new_logo1 g =
     (case new_logo1 of
        None \<Rightarrow> (Inr (), g)
      | Some img \<Rightarrow>
          (let g = g\<lparr>logo1_img := Some img\<rparr> in
           case sift_detectAndCompute cv img of
             Inl e \<Rightarrow> (Inl e, g)
           | Inr (k, d) \<Rightarrow> (Inr (), g\<lparr>kp1 := Some k, desc1 := d\<rparr>)))"

definition swap_logo2 :: "cv_env \<Rightarrow> image option \<Rightarrow> globals \<Rightarrow> (exn + unit) \<times> globals" where
  "swap_logo2 cv new_logo2 g =
     (case new_logo2 of
        None \<Rightarrow> (Inr (), g)
      | Some img \<Rightarrow>
          (let g = g\<lparr>logo2_img := Some img\<rparr> in
           case sift_detectAndCompute cv img of
             Inl e \<Rightarrow> (Inl e, g)
           | Inr (k, d) \<Rightarrow> (Inr (), g\<lparr>kp2 := Some k, desc2 := d\<rparr>)))"

text \<open>
  What the client gets: the JSON body of a regular return, the status code of the
  \<^verbatim>\<open>HTTPException\<close> the handler raises (its detail message is left out), or the
  server error that an exception of a library call becomes.
\<close>

datatype response =
    Json "(string \<times> string) list"
  | HTTPException nat
  | Unhandled exn

text \<open>
  The handler returns the response, the globals, and the paths it read. An exception
  of the decoder leaves the handler before the test for the client error and before
  any assignment.
\<close>

definition reload_logos ::
  "cv_env \<Rightarrow> reload_request \<Rightarrow> globals \<Rightarrow> response \<times> globals \<times> string list" where
  "reload_logos cv r g =
     (case decode_slot cv (logo1_file r) (logo1_path r) of
        (Inl e, reads1) \<Rightarrow> (Unhandled e, g, reads1)
      | (Inr new_logo1, reads1) \<Rightarrow>
     (case decode_slot cv (logo2_file r) (logo2_path r) of
        (Inl e, reads2) \<Rightarrow> (Unhandled e, g, reads1 @ reads2)
      | (Inr new_logo2, reads2) \<Rightarrow>
     (let reads = reads1 @ reads2
      in if new_logo1 = None \<and> new_logo2 = None then (HTTPException 400, g, reads)
         else case swap_logo1 cv new_logo1 g of
                (Inl e, g) \<Rightarrow> (Unhandled e, g, reads)
              | (Inr u, g) \<Rightarrow>
                  (case swap_logo2 cv new_logo2 g of
                     (Inl e, g) \<Rightarrow> (Unhandled e, g, reads)
                   | (Inr u, g) \<Rightarrow> (Json [(''status'', ''ok'')], g, reads)))))"

text \<open>
  What a reload makes of a slot, given the image \<open>n\<close> its input decoded to: without an
  image the entry of \<open>g\<close> stays, with one the entry is the image and its features.
\<close>

definition slot1_is :: "cv_env \<Rightarrow> image option \<Rightarrow> globals \<Rightarrow> globals \<Rightarrow> bool" where
  "slot1_is cv n g g' \<longleftrightarrow>
     (case n of
        None \<Rightarrow> logo1_img g' = logo1_img g \<and> kp1 g' = kp1 g \<and> desc1 g' = desc1 g
      | Some img \<Rightarrow> \<exists>k d. sift_detectAndCompute cv img = Inr (k, d)
           \<and> logo1_img g' = Some img \<and> kp1 g' = Some k \<and> desc1 g' = d)"

definition slot2_is :: "cv_env \<Rightarrow> image option \<Rightarrow> globals \<Rightarrow> globals \<Rightarrow> bool" where
  "slot2_is cv n g g' \<longleftrightarrow>
     (case n of
        None \<Rightarrow> logo2_img g' = logo2_img g \<and> kp2 g' = kp2 g \<and> desc2 g' = desc2 g
      | Some img \<Rightarrow> \<exists>k d. sift_detectAndCompute cv img = Inr (k, d)
           \<and> logo2_img g' = Some img \<and> kp2 g' = Some k \<and> desc2 g' = d)"

text \<open>
  The image a slot's input stands for, in the words of the spec: the uploaded bytes
  decoded when a file is supplied, else the file at the supplied path decoded, else
  nothing.
\<close>

definition supplied_image :: "cv_env \<Rightarrow> bytes option \<Rightarrow> string option \<Rightarrow> image option" where
  "supplied_image cv file path =
     (case file of
        Some data \<Rightarrow> cv_imdecode cv data
      | None \<Rightarrow>
          (case path of
             Some p \<Rightarrow> if p = [] then None else cv_imread cv p
           | None \<Rightarrow> None))"

section \<open>The program as a whole\<close>

text \<open>
  The background thread and the request handlers share the globals. \<open>handle\<close> runs one
  of them to its end: the start-up (with whether the stream opened and the clock
  reading the loop starts from), the shutdown, one iteration of the processing loop,
  or a request. The stream and statistics handlers only read.
\<close>

datatype worker = NotStarted | Looping loop_locals | Exited | Died exn

datatype request =
    Startup bool real
  | Shutdown
  | Iterate cycle_env
  | GetStats
  | StreamPoll
  | ReloadLogos reload_request

fun handle :: "cv_env \<Rightarrow> request \<Rightarrow> globals \<times> worker \<Rightarrow> globals \<times> worker" where
  "handle cv (Startup opened t0) (g, w) =
     (case startup_event cv opened g of
        (Inl e, g') \<Rightarrow> (g', w)
      | (Inr u, g') \<Rightarrow> (g', Looping \<lparr>fps_counter = 0, last_fps_time = t0\<rparr>))"
| "handle cv Shutdown (g, w) = (shutdown_event g, w)"
| "handle cv (Iterate c) (g, w) =
     (case w of
        Looping l \<Rightarrow>
          (case loop_iteration cv c g l of
             Running g' l' \<Rightarrow> (g', Looping l')
           | Stopped g' \<Rightarrow> (g', Exited)
           | Crashed e g' \<Rightarrow> (g', Died e))
      | _ \<Rightarrow> (g, w))"
| "handle cv GetStats (g, w) = (g, w)"
| "handle cv StreamPoll (g, w) = (g, w)"
| "handle cv (ReloadLogos r) (g, w) = (fst (snd (reload_logos cv r g)), w)"

fun run :: "cv_env \<Rightarrow> request list \<Rightarrow> globals \<times> worker \<Rightarrow> globals \<times> worker" where
  "run cv [] s = s"
| "run cv (r # rs) s = run cv rs (handle cv r s)"

section \<open>The registry swap, access by access\<close>

text \<open>
  The reload handler runs on the event loop's thread and the processing loop on its
  own; neither takes a lock around \<^verbatim>\<open>logo1_img\<close>, \<^verbatim>\<open>kp1\<close> and \<^verbatim>\<open>desc1\<close>. The handler
  stores the three variables one after the other (lines 286 and 287), a cycle loads
  \<^verbatim>\<open>desc1\<close> for the matcher (line 135) and later \<^verbatim>\<open>logo1_img\<close> and \<^verbatim>\<open>kp1\<close> for the
  drawing (line 143). A schedule is an interleaving of the two sequences.
\<close>

datatype access =
    Store_logo1_img "image option"
  | Store_kp1 "keypoint list option"
  | Store_desc1 "descriptor list option"
  | Load_desc1
  | Load_logo1_img
  | Load_kp1

record seen =
  seen_desc1 :: "descriptor list option option"
  seen_logo1_img :: "image option option"
  seen_kp1 :: "keypoint list option option"

definition nothing_seen :: seen where
  "nothing_seen = \<lparr>seen_desc1 = None, seen_logo1_img = None, seen_kp1 = None\<rparr>"

fun perform :: "access \<Rightarrow> globals \<times> seen \<Rightarrow> globals \<times> seen" where
  "perform (Store_logo1_img v) (g, s) = (g\<lparr>logo1_img := v\<rparr>, s)"
| "perform (Store_kp1 v) (g, s) = (g\<lparr>kp1 := v\<rparr>, s)"
| "perform (Store_desc1 v) (g, s) = (g\<lparr>desc1 := v\<rparr>, s)"
| "perform Load_desc1 (g, s) = (g, s\<lparr>seen_desc1 := Some (desc1 g)\<rparr>)"
| "perform Load_logo1_img (g, s) = (g, s\<lparr>seen_logo1_img := Some (logo1_img g)\<rparr>)"
| "perform Load_kp1 (g, s) = (g, s\<lparr>seen_kp1 := Some (kp1 g)\<rparr>)"

fun schedule :: "access list \<Rightarrow> globals \<times> seen \<Rightarrow> globals \<times> seen" where
  "schedule [] s = s"
| "schedule (a # as) s = schedule as (perform a s)"

definition swap_logo1_accesses :: "cv_env \<Rightarrow> image \<Rightarrow> access list" where
  "swap_logo1_accesses cv img =
     Store_logo1_img (Some img) #
     (case sift_detectAndCompute cv img of
        Inl e \<Rightarrow> []
      | Inr (k, d) \<Rightarrow> [Store_kp1 (Some k), Store_desc1 d])"

definition cycle_logo1_accesses :: "access list" where
  "cycle_logo1_accesses = [Load_desc1, Load_logo1_img, Load_kp1]"

fun interleavings :: "'a list \<Rightarrow> 'a list \<Rightarrow> 'a list list" where
  "interleavings [] ys = [ys]"
| "interleavings xs [] = [xs]"
| "interleavings (x # xs) (y # ys) =
     map ((#) x) (interleavings xs (y # ys)) @ map ((#) y) (interleavings (x # xs) ys)"

text \<open>What a cycle saw of entry 1: the entry of \<open>g\<close> as a whole, or not.\<close>

definition entry1_of :: "globals \<Rightarrow> seen" where
  "entry1_of g =
     \<lparr>seen_desc1 = Some (desc1 g), seen_logo1_img = Some (logo1_img g),
      seen_kp1 = Some (kp1 g)\<rparr>"

section \<open>Sample values\<close>

text \<open>
  A small stand-in for OpenCV, for evaluating the model: an image is its rows, every
  non-empty row is a keypoint whose descriptor is the row, an empty image makes the
  detector raise, only \<^verbatim>\<open>logo.jpg\<close> exists on disk, every upload but \<^verbatim>\<open>junk\<close> decodes
  and only non-empty images encode.
\<close>

definition sample_sift :: "image \<Rightarrow> exn + keypoint list \<times> descriptor list option" where
  "sample_sift img =
     (if img = [] then Inl CvError
      else let rs = filter (\<lambda>r. r \<noteq> []) img in
        Inr (map (\<lambda>r. (real (length r), 0)) rs,
             if rs = [] then None else Some (map (map real) rs)))"

definition sample_cv :: cv_env where
  "sample_cv =
     \<lparr>cv_resize = (\<lambda>img sz. img),
      sift_detectAndCompute = sample_sift,
      cv_drawMatches = (\<lambda>logo kps frame kpf good.
         case logo of None \<Rightarrow> Inl CvError | Some l \<Rightarrow> Inr (l @ frame)),
      np_hstack = (\<lambda>a b. a @ b),
      cv_putText = (\<lambda>img txt org. img),
      cv_imread = (\<lambda>p. if p = ''logo.jpg'' then Some [[1, 2]] else None),
      cv_imdecode = (\<lambda>b. if b = ''junk'' then None else Some [[length b]]),
      cv_imencode = (\<lambda>ext img ps.
         if img = [] then None else Some (replicate (length img) CHR ''x''))\<rparr>"

definition sample_globals :: globals where
  "sample_globals =
     initial_globals
       \<lparr>cap_set := True,
        logo1_img := Some [[0], [10]], kp1 := Some [(1, 0), (1, 0)],
        desc1 := Some [[0], [10]],
        logo2_img := Some [[5]], kp2 := Some [(1, 0)], desc2 := Some [[5]]\<rparr>"

definition sample_cycle :: "(bool \<times> image option) \<Rightarrow> cycle_env" where
  "sample_cycle rd =
     \<lparr>cap_isOpened = True, cap_read = rd, time_publish = 100, rss = None, time_now = 100\<rparr>"

definition sample_locals :: loop_locals where
  "sample_locals = \<lparr>fps_counter = 0, last_fps_time = 99.5\<rparr>"

section \<open>Rounding to double precision\<close>

lemma round_half_even_close: "\<bar>of_int (round_half_even x) - x\<bar> \<le> 1 / 2"
  unfolding round_half_even_def Let_def by (auto simp: abs_le_iff)

lemma round_double_eval:
  fixes k :: int
  assumes "2 powr of_int k \<le> x" and "x < 2 powr (of_int k + 1)"
  shows "round_double x
     = of_int (round_half_even (x / 2 powr (of_int k - 52))) * 2 powr (of_int k - 52)"
proof -
  have pos: "0 < x"
    using assms(1) by (smt (verit) powr_gt_zero)
  then have "\<lfloor>log 2 \<bar>x\<bar>\<rfloor> = k"
    using floor_log_eq_powr_iff [of x 2 k] assms by simp
  with pos show ?thesis
    by (simp add: round_double_def)
qed

lemma RATIO_THRESH_value: "RATIO_THRESH = 6034823500676465 / 2 ^ 53"
proof -
  have "round_double 0.67
     = of_int (round_half_even (0.67 / 2 powr (of_int (-1) - 52))) * 2 powr (of_int (-1) - 52)"
    by (rule round_double_eval) (simp_all add: powr_minus)
  also have "2 powr (of_int (-1) - 52) = (1 / 2 ^ 53 :: real)"
    by (simp add: powr_minus inverse_eq_divide)
  also have "round_half_even (0.67 / (1 / 2 ^ 53)) = 6034823500676465"
    by (simp add: round_half_even_def Let_def)
  finally show ?thesis
    by (simp add: RATIO_THRESH_def)
qed


lemma round_double_error:
  assumes "0 < x"
  shows "\<bar>round_double x - x\<bar> \<le> x / 2 ^ 53"
proof -
  define e where "e = \<lfloor>log 2 \<bar>x\<bar>\<rfloor>"
  define u :: real where "u = 2 powr (of_int e - 52)"
  have u: "0 < u"
    by (simp add: u_def)
  have "2 powr of_int e \<le> x"
    using floor_log_eq_powr_iff [of x 2 e] assms by (simp add: e_def)
  moreover have "2 powr of_int e = u * 2 ^ 52"
    by (simp add: u_def powr_diff)
  ultimately have low: "u * 2 ^ 52 \<le> x"
    by simp
  have rd: "round_double x = of_int (round_half_even (x / u)) * u"
    using assms by (simp add: round_double_def e_def u_def Let_def)
  have "of_int (round_half_even (x / u)) * u - x
      = (of_int (round_half_even (x / u)) - x / u) * u"
    using u by (simp add: left_diff_distrib)
  then have "\<bar>of_int (round_half_even (x / u)) * u - x\<bar>
      = \<bar>of_int (round_half_even (x / u)) - x / u\<bar> * u"
    using u by (simp only: abs_mult)
  also have "\<dots> \<le> 1 / 2 * u"
    using round_half_even_close [of "x / u"] u by (intro mult_right_mono) simp_all
  also have "\<dots> \<le> x / 2 ^ 53"
    using low by simp
  finally show ?thesis
    by (simp add: rd)
qed

lemma ratio_accept:
  assumes "0 < s" and "b \<le> 66 / 100 * s"
  shows "b < double_mul RATIO_THRESH s"
proof -
  have pos: "0 < RATIO_THRESH * s"
    using assms(1) by (simp add: RATIO_THRESH_value)
  have "RATIO_THRESH * s - RATIO_THRESH * s / 2 ^ 53 \<le> round_double (RATIO_THRESH * s)"
    using round_double_error [OF pos] by linarith
  moreover have "66 / 100 * s < RATIO_THRESH * s - RATIO_THRESH * s / 2 ^ 53"
    using assms(1) by (simp add: RATIO_THRESH_value)
  ultimately show ?thesis
    using assms(2) by (simp add: double_mul_def)
qed

lemma ratio_reject:
  assumes "0 < s" and "68 / 100 * s \<le> b"
  shows "\<not> b < double_mul RATIO_THRESH s"
proof -
  have pos: "0 < RATIO_THRESH * s"
    using assms(1) by (simp add: RATIO_THRESH_value)
  have "round_double (RATIO_THRESH * s) \<le> RATIO_THRESH * s + RATIO_THRESH * s / 2 ^ 53"
    using round_double_error [OF pos] by linarith
  moreover have "RATIO_THRESH * s + RATIO_THRESH * s / 2 ^ 53 < 68 / 100 * s"
    using assms(1) by (simp add: RATIO_THRESH_value)
  ultimately show ?thesis
    using assms(2) by (simp add: double_mul_def)
qed


section \<open>The matcher and the ratio test\<close>

lemma norm_L2_single: "norm_L2 [x] [y] = \<bar>x - y\<bar>"
  by (simp add: norm_L2_def)

lemma length_neighbours: "length (neighbours i q train) = length train"
  by (simp add: neighbours_def)

lemma knnMatch_result_length:
  assumes "knnMatch q t k = Inr ms" and "m \<in> set ms"
  shows "length m = min k (length (rows t))"
  using assms
  by (auto simp: knnMatch_def Let_def length_neighbours in_set_enumerate_eq split: if_splits)

lemma knnMatch_count:
  assumes "knnMatch q t k = Inr ms"
  shows "length ms \<le> length (rows q)"
  using assms by (auto simp: knnMatch_def Let_def split: if_splits)

lemma length_good_matches: "length (good_matches ms) \<le> length ms"
  by (simp add: good_matches_def)










text \<open>
  Claim C2 says that the number of good matches of descriptor sets \<open>A\<close> of size \<open>m\<close>
  and \<open>B\<close> of size \<open>n\<close> lies between 0 and \<open>min m n\<close>. The matcher answers once per
  row of \<open>A\<close> and does not keep a row of \<open>B\<close> from being the best match of several rows
  of \<open>A\<close>: three reference descriptors against two frame descriptors give three good
  matches.
\<close>

theorem good_matches_min_counterexample:
  "knnMatch (Some [[0], [1], [2]]) (Some [[0], [100]]) 2 =
     Inr [[\<lparr>queryIdx = 0, trainIdx = 0, distance = 0\<rparr>,
           \<lparr>queryIdx = 0, trainIdx = 1, distance = 100\<rparr>],
          [\<lparr>queryIdx = 1, trainIdx = 0, distance = 1\<rparr>,
           \<lparr>queryIdx = 1, trainIdx = 1, distance = 99\<rparr>],
          [\<lparr>queryIdx = 2, trainIdx = 0, distance = 2\<rparr>,
           \<lparr>queryIdx = 2, trainIdx = 1, distance = 98\<rparr>]]
   \<and> good_matches
         [[\<lparr>queryIdx = 0, trainIdx = 0, distance = 0\<rparr>,
           \<lparr>queryIdx = 0, trainIdx = 1, distance = 100\<rparr>],
          [\<lparr>queryIdx = 1, trainIdx = 0, distance = 1\<rparr>,
           \<lparr>queryIdx = 1, trainIdx = 1, distance = 99\<rparr>],
          [\<lparr>queryIdx = 2, trainIdx = 0, distance = 2\<rparr>,
           \<lparr>queryIdx = 2, trainIdx = 1, distance = 98\<rparr>]] =
       [\<lparr>queryIdx = 0, trainIdx = 0, distance = 0\<rparr>,
        \<lparr>queryIdx = 1, trainIdx = 0, distance = 1\<rparr>,
        \<lparr>queryIdx = 2, trainIdx = 0, distance = 2\<rparr>]
   \<and> \<not> length
         (good_matches
           [[\<lparr>queryIdx = 0, trainIdx = 0, distance = 0\<rparr>,
             \<lparr>queryIdx = 0, trainIdx = 1, distance = 100\<rparr>],
            [\<lparr>queryIdx = 1, trainIdx = 0, distance = 1\<rparr>,
             \<lparr>queryIdx = 1, trainIdx = 1, distance = 99\<rparr>],
            [\<lparr>queryIdx = 2, trainIdx = 0, distance = 2\<rparr>,
             \<lparr>queryIdx = 2, trainIdx = 1, distance = 98\<rparr>]])
       \<le> min (length [[0 :: real], [1], [2]]) (length [[0 :: real], [100]])"
proof -
  have "(0 :: real) < double_mul RATIO_THRESH 100"
    and "(1 :: real) < double_mul RATIO_THRESH 99"
    and "(2 :: real) < double_mul RATIO_THRESH 98"
    by (rule ratio_accept; simp)+
  then show ?thesis
    by (simp add: knnMatch_def neighbours_def norm_L2_single enumerate_eq_zip upt_rec Let_def
        good_matches_def ratio_test_def)
qed

text \<open>
  Claim C2, amended. The number of good matches lies between 0 and the number \<open>m\<close> of
  reference descriptors, and it is 0 when there are fewer than 2 frame descriptors.
\<close>

theorem good_matches_bound:
  assumes "knnMatch A B 2 = Inr ms"
  shows "length (good_matches ms) \<le> length (rows A)
     \<and> (length (rows B) < 2 \<longrightarrow> good_matches ms = [])"
proof -
  have a: "length (good_matches ms) \<le> length (rows A)"
    using length_good_matches [of ms] knnMatch_count [OF assms] by simp
  have b: "good_matches ms = []" if "length (rows B) < 2"
  proof -
    have "\<not> ratio_test m" if "m \<in> set ms" for m
      using knnMatch_result_length [OF assms that] \<open>length (rows B) < 2\<close>
      by (simp add: ratio_test_def)
    then show ?thesis by (simp add: good_matches_def)
  qed
  from a b show ?thesis by blast
qed

theorem good_matches_bound_witness:
  "knnMatch (Some [[0], [7]]) (Some [[1]]) 2 =
     Inr [[\<lparr>queryIdx = 0, trainIdx = 0, distance = 1\<rparr>],
          [\<lparr>queryIdx = 1, trainIdx = 0, distance = 6\<rparr>]]
   \<and> good_matches [[\<lparr>queryIdx = 0, trainIdx = 0, distance = 1\<rparr>],
                    [\<lparr>queryIdx = 1, trainIdx = 0, distance = 6\<rparr>]] = []"
proof -
  have h: "knnMatch (Some [[0], [7]]) (Some [[1]]) 2 =
     Inr [[\<lparr>queryIdx = 0, trainIdx = 0, distance = 1\<rparr>],
          [\<lparr>queryIdx = 1, trainIdx = 0, distance = 6\<rparr>]]"
    by (simp add: knnMatch_def neighbours_def norm_L2_single enumerate_eq_zip upt_rec Let_def)
  show ?thesis
    using h good_matches_bound [OF h] by simp
qed

section \<open>One cycle of the processing loop\<close>

lemma fps_accounting_frame: "last_frame (fst (fps_accounting c g l)) = last_frame g"
  by (simp add: fps_accounting_def Let_def)

lemma processing_cycle_absent:
  assumes "absent g c"
  shows "processing_cycle cv c g l = Inr (g, l)"
  using assms
  by (cases "cap_read c") (auto simp: absent_def processing_cycle_def split: option.splits)

lemma processing_cycle_no_descriptors:
  assumes "cap_set g" and "cap_isOpened c" and "cap_read c = (True, Some fr)"
    and "sift_detectAndCompute cv (cv_resize cv fr FRAME_SIZE) = Inr (kp_frame, None)"
  shows "processing_cycle cv c g l = Inr (fps_accounting c g l)"
  using assms by (simp add: processing_cycle_def and_then_def)

lemma processing_cycle_extraction_raises:
  assumes "cap_set g" and "cap_isOpened c" and "cap_read c = (True, Some fr)"
    and "sift_detectAndCompute cv (cv_resize cv fr FRAME_SIZE) = Inl e"
  shows "processing_cycle cv c g l = Inl e"
  using assms by (simp add: processing_cycle_def and_then_def)

lemma match_and_publish_matching_raises:
  assumes "knnMatch (desc1 g) (Some d) 2 = Inl e
     \<or> (\<exists>ms. knnMatch (desc1 g) (Some d) 2 = Inr ms) \<and> knnMatch (desc2 g) (Some d) 2 = Inl e"
  shows "match_and_publish cv c frame kp_frame d g = Inl e"
  using assms by (auto simp: match_and_publish_def and_then_def)

lemma processing_cycle_matching_raises:
  assumes "cap_set g" and "cap_isOpened c" and "cap_read c = (True, Some fr)"
    and "sift_detectAndCompute cv (cv_resize cv fr FRAME_SIZE) = Inr (kp_frame, Some d)"
    and "knnMatch (desc1 g) (Some d) 2 = Inl e
     \<or> (\<exists>ms. knnMatch (desc1 g) (Some d) 2 = Inr ms) \<and> knnMatch (desc2 g) (Some d) 2 = Inl e"
  shows "processing_cycle cv c g l = Inl e"
  using assms(1-4) match_and_publish_matching_raises [OF assms(5)]
  by (simp add: processing_cycle_def and_then_def)

text \<open>
  Claim C3. In a cycle whose frame has no descriptors (the detector returns \<^verbatim>\<open>None\<close> for
  them), the shared frame and the statistics fields \<open>logo1_matches\<close>, \<open>logo2_matches\<close>,
  \<open>last_update\<close> and \<open>mem_mb\<close> stay as they were, and the cycle is counted: the cycle
  counter goes up by one, or, when the one-second window has elapsed, the rate is
  committed with this cycle included and the counter starts again from 0.
\<close>

theorem empty_descriptors_cycle:
  assumes "cap_set g" and "cap_isOpened c" and "cap_read c = (True, Some fr)"
    and "sift_detectAndCompute cv (cv_resize cv fr FRAME_SIZE) = Inr (kp_frame, None)"
  shows "\<exists>g' l'. processing_cycle cv c g l = Inr (g', l')
     \<and> last_frame g' = last_frame g
     \<and> logo1_matches (shared_stats g') = logo1_matches (shared_stats g)
     \<and> logo2_matches (shared_stats g') = logo2_matches (shared_stats g)
     \<and> last_update (shared_stats g') = last_update (shared_stats g)
     \<and> mem_mb (shared_stats g') = mem_mb (shared_stats g)
     \<and> (if time_now c - last_fps_time l \<ge> 1
        then fps (shared_stats g') = real (fps_counter l + 1) / (time_now c - last_fps_time l)
           \<and> fps_counter l' = 0 \<and> last_fps_time l' = time_now c
        else fps (shared_stats g') = fps (shared_stats g)
           \<and> fps_counter l' = fps_counter l + 1 \<and> last_fps_time l' = last_fps_time l)"
  unfolding processing_cycle_no_descriptors [OF assms]
  by (simp add: fps_accounting_def Let_def)

theorem empty_descriptors_cycle_witness:
  "cap_set sample_globals
   \<and> cap_isOpened (sample_cycle (True, Some [[]]))
   \<and> cap_read (sample_cycle (True, Some [[]])) = (True, Some [[]])
   \<and> sift_detectAndCompute sample_cv (cv_resize sample_cv [[]] FRAME_SIZE) = Inr ([], None)
   \<and> processing_cycle sample_cv (sample_cycle (True, Some [[]])) sample_globals sample_locals
       = Inr (sample_globals, sample_locals\<lparr>fps_counter := 1\<rparr>)"
proof -
  have a: "cap_set sample_globals"
    by (simp add: sample_globals_def)
  have b: "cap_isOpened (sample_cycle (True, Some [[]]))"
    by (simp add: sample_cycle_def)
  have c: "cap_read (sample_cycle (True, Some [[]])) = (True, Some [[]])"
    by (simp add: sample_cycle_def)
  have d: "sift_detectAndCompute sample_cv (cv_resize sample_cv [[]] FRAME_SIZE) = Inr ([], None)"
    by (simp add: sample_cv_def sample_sift_def)
  have e: "processing_cycle sample_cv (sample_cycle (True, Some [[]])) sample_globals sample_locals
       = Inr (sample_globals, sample_locals\<lparr>fps_counter := 1\<rparr>)"
    by (simp add: processing_cycle_def and_then_def sample_cv_def sample_sift_def
        sample_cycle_def sample_globals_def sample_locals_def fps_accounting_def Let_def)
  show ?thesis
    using a b c d e empty_descriptors_cycle [OF a b c d, of sample_locals] by simp
qed

text \<open>
  Claim C5 says that a cycle in which extraction or matching raises does not end the
  processing loop. The loop has no exception handler: with the detector raising on the
  first frame, the loop ends there and the second frame is never processed.
\<close>

theorem loop_survives_exception_counterexample:
  "\<not> stop_event sample_globals
   \<and> sift_detectAndCompute sample_cv (cv_resize sample_cv [] FRAME_SIZE) = Inl CvError
   \<and> processing_loop sample_cv
       [sample_cycle (True, Some []), sample_cycle (True, Some [[1]])]
       sample_globals sample_locals = Crashed CvError sample_globals"
  by (simp add: loop_iteration_def processing_cycle_def and_then_def sample_cv_def
      sample_sift_def sample_cycle_def sample_globals_def sample_locals_def initial_globals_def)

text \<open>
  Claim C5, amended. In a cycle in which extraction or matching raises an exception,
  nothing is published and the exception ends the processing loop: no later cycle runs.
\<close>

theorem exception_ends_loop:
  assumes "\<not> stop_event g" and "cap_set g" and "cap_isOpened c"
    and "cap_read c = (True, Some fr)"
    and "sift_detectAndCompute cv (cv_resize cv fr FRAME_SIZE) = Inl e
       \<or> (\<exists>kp_frame d.
            sift_detectAndCompute cv (cv_resize cv fr FRAME_SIZE) = Inr (kp_frame, Some d)
            \<and> (knnMatch (desc1 g) (Some d) 2 = Inl e
               \<or> (\<exists>ms. knnMatch (desc1 g) (Some d) 2 = Inr ms)
                  \<and> knnMatch (desc2 g) (Some d) 2 = Inl e))"
  shows "processing_loop cv (c # cs) g l = Crashed e g"
proof -
  have "processing_cycle cv c g l = Inl e"
    using assms(5)
  proof (elim disjE exE conjE)
    assume "sift_detectAndCompute cv (cv_resize cv fr FRAME_SIZE) = Inl e"
    then show ?thesis
      by (rule processing_cycle_extraction_raises [OF assms(2-4)])
  next
    fix kp_frame d
    assume "sift_detectAndCompute cv (cv_resize cv fr FRAME_SIZE) = Inr (kp_frame, Some d)"
      and "knnMatch (desc1 g) (Some d) 2 = Inl e"
    then show ?thesis
      using processing_cycle_matching_raises [OF assms(2-4)] by blast
  next
    fix kp_frame d ms
    assume "sift_detectAndCompute cv (cv_resize cv fr FRAME_SIZE) = Inr (kp_frame, Some d)"
      and "knnMatch (desc1 g) (Some d) 2 = Inr ms"
      and "knnMatch (desc2 g) (Some d) 2 = Inl e"
    then show ?thesis
      using processing_cycle_matching_raises [OF assms(2-4)] by blast
  qed
  with assms(1) show ?thesis
    by (simp add: loop_iteration_def)
qed

text \<open>
  The witness has the matcher raise: the frame's descriptor has two columns, the
  descriptors of logo 1 have one.
\<close>

theorem exception_ends_loop_witness:
  "sift_detectAndCompute sample_cv (cv_resize sample_cv [[1, 2]] FRAME_SIZE)
     = Inr ([(2, 0)], Some [[1, 2]])
   \<and> knnMatch (desc1 sample_globals) (Some [[1, 2]]) 2 = Inl CvError
   \<and> processing_loop sample_cv
       [sample_cycle (True, Some [[1, 2]]), sample_cycle (True, Some [[1]])]
       sample_globals sample_locals = Crashed CvError sample_globals"
proof -
  have a: "\<not> stop_event sample_globals" "cap_set sample_globals"
    by (simp_all add: sample_globals_def initial_globals_def)
  have b: "cap_isOpened (sample_cycle (True, Some [[1, 2]]))"
    "cap_read (sample_cycle (True, Some [[1, 2]])) = (True, Some [[1, 2]])"
    by (simp_all add: sample_cycle_def)
  have s: "sift_detectAndCompute sample_cv (cv_resize sample_cv [[1, 2]] FRAME_SIZE)
      = Inr ([(2, 0)], Some [[1, 2]])"
    by (simp add: sample_cv_def sample_sift_def)
  have k: "knnMatch (desc1 sample_globals) (Some [[1, 2]]) 2 = Inl CvError"
    by (simp add: knnMatch_def sample_globals_def)
  show ?thesis
    using s k exception_ends_loop [OF a b, of sample_cv CvError
        "[sample_cycle (True, Some [[1]])]" sample_locals]
    by simp
qed

section \<open>An absent frame source and the stream\<close>

lemma processing_loop_absent:
  assumes "\<not> stop_event g" and "list_all (absent g) cs"
  shows "processing_loop cv cs g l = Running g l"
  using assms(2)
proof (induction cs)
  case Nil
  show ?case by simp
next
  case (Cons c cs)
  then show ?case
    using assms(1) by (simp add: loop_iteration_def processing_cycle_absent)
qed

lemma mjpeg_generator_no_frame:
  assumes "\<not> stop_event g" and "last_frame g = None"
  shows "mjpeg_generator cv (replicate n g) = replicate n (Sleep 0.02)"
  using assms by (induction n) simp_all

text \<open>
  Claim C7. Start from the statistics and the empty frame cell of the module's initial
  state. If the frame source is absent in every iteration, the loop keeps running with
  the globals as they were, so \<open>fps\<close> stays 0 and \<open>last_update\<close> stays 0.0, and a
  viewer's generator, however often it polls, yields no chunk.
\<close>

theorem absent_source_keeps_initial_stats:
  assumes "shared_stats g = shared_stats initial_globals"
    and "last_frame g = last_frame initial_globals"
    and "\<not> stop_event g"
    and "list_all (absent g) cs"
  shows "\<exists>g' l'. processing_loop cv cs g l = Running g' l'
     \<and> fps (shared_stats g') = 0
     \<and> last_update (shared_stats g') = 0
     \<and> (\<forall>n chunk. Yield chunk \<notin> set (mjpeg_generator cv (replicate n g')))"
proof -
  have "last_frame g = None"
    using assms(2) by (simp add: initial_globals_def)
  then have "Yield chunk \<notin> set (mjpeg_generator cv (replicate n g))" for n chunk
    using mjpeg_generator_no_frame [OF assms(3)] by auto
  moreover have "fps (shared_stats g) = 0" "last_update (shared_stats g) = 0"
    using assms(1) by (simp_all add: initial_globals_def)
  ultimately show ?thesis
    using processing_loop_absent [OF assms(3,4)] by simp
qed

theorem absent_source_keeps_initial_stats_witness:
  "list_all (absent (initial_globals\<lparr>cap_set := True\<rparr>))
      [sample_cycle (False, None), sample_cycle (True, None), sample_cycle (False, Some [[1]])]
   \<and> processing_loop sample_cv
        [sample_cycle (False, None), sample_cycle (True, None), sample_cycle (False, Some [[1]])]
        (initial_globals\<lparr>cap_set := True\<rparr>) sample_locals
      = Running (initial_globals\<lparr>cap_set := True\<rparr>) sample_locals
   \<and> mjpeg_generator sample_cv (replicate 2 (initial_globals\<lparr>cap_set := True\<rparr>))
      = [Sleep 0.02, Sleep 0.02]"
proof -
  have a: "list_all (absent (initial_globals\<lparr>cap_set := True\<rparr>))
      [sample_cycle (False, None), sample_cycle (True, None), sample_cycle (False, Some [[1]])]"
    by (simp add: absent_def sample_cycle_def)
  have s: "shared_stats (initial_globals\<lparr>cap_set := True\<rparr>) = shared_stats initial_globals"
    "last_frame (initial_globals\<lparr>cap_set := True\<rparr>) = last_frame initial_globals"
    "\<not> stop_event (initial_globals\<lparr>cap_set := True\<rparr>)"
    by (simp_all add: initial_globals_def)
  show ?thesis
    using a absent_source_keeps_initial_stats [OF s a, of sample_cv sample_locals]
    by (simp add: loop_iteration_def processing_cycle_def sample_cycle_def initial_globals_def
        numeral_2_eq_2)
qed

text \<open>
  Claim C8 says that the generator pauses about 20 ms whenever no new frame exists yet,
  instead of sending the stale frame again. The generator does not know whether a
  frame is new: with the same frame in the cell at two polls in a row it yields the
  same chunk twice and does not pause.
\<close>

theorem stale_frame_pause_counterexample:
  "last_frame (sample_globals\<lparr>last_frame := Some [[72, 105]]\<rparr>) = Some [[72, 105]]
   \<and> mjpeg_generator sample_cv
        [sample_globals\<lparr>last_frame := Some [[72, 105]]\<rparr>,
         sample_globals\<lparr>last_frame := Some [[72, 105]]\<rparr>]
      = [Yield (mjpeg_chunk ''x''), Yield (mjpeg_chunk ''x'')]"
  by (simp add: sample_globals_def initial_globals_def sample_cv_def)

text \<open>
  Claim C8, amended. At each poll before the stop event, the generator pauses 20 ms and
  yields nothing when the shared cell holds no frame at all; when the cell holds a
  frame, new or not, it does not pause and yields one chunk, the frame encoded as JPEG
  of quality 90 at that moment (or nothing when this encoding fails).
\<close>

theorem generator_poll:
  assumes "\<not> stop_event g"
  shows "mjpeg_generator cv (g # gs) =
     (case last_frame g of
        None \<Rightarrow> [Sleep 0.02]
      | Some frame \<Rightarrow>
          (case cv_imencode cv ''.jpg'' frame [IMWRITE_JPEG_QUALITY, 90] of
             None \<Rightarrow> []
           | Some jpg \<Rightarrow> [Yield (mjpeg_chunk jpg)])) @ mjpeg_generator cv gs"
  using assms by (simp add: JPEG_QUALITY_def split: option.splits)

theorem generator_poll_witness:
  "\<not> stop_event sample_globals
   \<and> mjpeg_generator sample_cv
        [sample_globals, sample_globals\<lparr>last_frame := Some [[72, 105]]\<rparr>]
      = [Sleep 0.02, Yield (mjpeg_chunk ''x'')]"
proof -
  have a: "\<not> stop_event sample_globals"
    by (simp add: sample_globals_def initial_globals_def)
  show ?thesis
    using a generator_poll [OF a, of sample_cv
        "[sample_globals\<lparr>last_frame := Some [[72, 105]]\<rparr>]"]
    by (simp add: sample_globals_def initial_globals_def sample_cv_def)
qed

section \<open>The published frame\<close>

lemma match_and_publish_frame:
  assumes "match_and_publish cv c frame kp_frame d g = Inr g'"
  shows "last_frame g' \<noteq> None"
  using assms
  by (auto simp: match_and_publish_def and_then_def Let_def split: sum.splits prod.splits)

lemma processing_cycle_frame:
  assumes "processing_cycle cv c g l = Inr (g', l')" and "last_frame g \<noteq> None"
  shows "last_frame g' \<noteq> None"
proof (cases "absent g c")
  case True
  then have "processing_cycle cv c g l = Inr (g, l)"
    by (rule processing_cycle_absent)
  with assms show ?thesis by simp
next
  case False
  then obtain fr where fr: "cap_set g" "cap_isOpened c" "cap_read c = (True, Some fr)"
    by (cases "cap_read c") (auto simp: absent_def)
  show ?thesis
  proof (cases "sift_detectAndCompute cv (cv_resize cv fr FRAME_SIZE)")
    case (Inl e)
    with fr assms(1) show ?thesis
      by (simp add: processing_cycle_def and_then_def)
  next
    case (Inr kd)
    obtain kp_frame desc_frame where kd: "kd = (kp_frame, desc_frame)"
      by (cases kd)
    show ?thesis
    proof (cases desc_frame)
      case None
      with fr Inr kd assms(1) have "(g', l') = fps_accounting c g l"
        by (simp add: processing_cycle_def and_then_def)
      then have "g' = fst (fps_accounting c g l)"
        by (metis fst_conv)
      with assms(2) show ?thesis
        by (simp add: fps_accounting_frame)
    next
      case (Some d)
      show ?thesis
      proof (cases "match_and_publish cv c (cv_resize cv fr FRAME_SIZE) kp_frame d g")
        case (Inl e)
        with fr \<open>sift_detectAndCompute cv (cv_resize cv fr FRAME_SIZE) = Inr kd\<close> kd Some assms(1)
        show ?thesis
          by (simp add: processing_cycle_def and_then_def)
      next
        case (Inr g1)
        with fr \<open>sift_detectAndCompute cv (cv_resize cv fr FRAME_SIZE) = Inr kd\<close> kd Some assms(1)
        have "(g', l') = fps_accounting c g1 l"
          by (simp add: processing_cycle_def and_then_def)
        then have "g' = fst (fps_accounting c g1 l)"
          by (metis fst_conv)
        with match_and_publish_frame [OF Inr] show ?thesis
          by (simp add: fps_accounting_frame)
      qed
    qed
  qed
qed

lemma loop_iteration_frame:
  assumes "last_frame g \<noteq> None"
  shows "case loop_iteration cv c g l of
           Running g' l' \<Rightarrow> last_frame g' \<noteq> None
         | Stopped g' \<Rightarrow> last_frame g' \<noteq> None
         | Crashed e g' \<Rightarrow> last_frame g' \<noteq> None"
proof (cases "stop_event g")
  case True
  with assms show ?thesis by (simp add: loop_iteration_def)
next
  case False
  show ?thesis
  proof (cases "processing_cycle cv c g l")
    case (Inl e)
    with False assms show ?thesis by (simp add: loop_iteration_def)
  next
    case (Inr p)
    obtain g' l' where "p = (g', l')" by (cases p)
    with Inr False processing_cycle_frame [of cv c g l g' l'] assms show ?thesis
      by (simp add: loop_iteration_def)
  qed
qed

lemma swap_logo1_frame: "last_frame (snd (swap_logo1 cv n g)) = last_frame g"
  by (simp add: swap_logo1_def Let_def split: option.splits sum.splits prod.splits)

lemma swap_logo2_frame: "last_frame (snd (swap_logo2 cv n g)) = last_frame g"
  by (simp add: swap_logo2_def Let_def split: option.splits sum.splits prod.splits)

lemma swap_logo1_frameD:
  assumes "swap_logo1 cv n g = (x, g')"
  shows "last_frame g' = last_frame g"
  using swap_logo1_frame [of cv n g] assms by simp

lemma swap_logo2_frameD:
  assumes "swap_logo2 cv n g = (x, g')"
  shows "last_frame g' = last_frame g"
  using swap_logo2_frame [of cv n g] assms by simp

lemma reload_logos_frame: "last_frame (fst (snd (reload_logos cv r g))) = last_frame g"
  by (auto simp: reload_logos_def Let_def split: prod.splits sum.splits
      dest!: swap_logo1_frameD swap_logo2_frameD)

lemma load_logos_frame: "last_frame (snd (load_logos cv p1 p2 g)) = last_frame g"
  by (simp add: load_logos_def Let_def split: option.splits sum.splits prod.splits)

lemma startup_event_frame: "last_frame (snd (startup_event cv opened g)) = last_frame g"
proof -
  obtain x g1 where a: "load_logos cv LOGO1_PATH LOGO2_PATH g = (x, g1)"
    by (cases "load_logos cv LOGO1_PATH LOGO2_PATH g")
  then have "last_frame g1 = last_frame g"
    using load_logos_frame [of cv LOGO1_PATH LOGO2_PATH g] by simp
  with a show ?thesis
    by (simp add: startup_event_def Let_def split: sum.splits)
qed

lemma handle_frame:
  assumes "last_frame (fst s) \<noteq> None"
  shows "last_frame (fst (handle cv r s)) \<noteq> None"
proof -
  obtain g w where s: "s = (g, w)" by (cases s)
  show ?thesis
  proof (cases r)
    case (Startup opened t0)
    with s assms startup_event_frame [of cv opened g] show ?thesis
      by (auto split: prod.splits sum.splits)
  next
    case Shutdown
    with s assms show ?thesis by (simp add: shutdown_event_def)
  next
    case (Iterate c)
    show ?thesis
    proof (cases w)
      case (Looping l)
      with s Iterate assms loop_iteration_frame [of g cv c l] show ?thesis
        by (auto split: loop_outcome.splits)
    qed (use s Iterate assms in simp_all)
  next
    case GetStats
    with s assms show ?thesis by simp
  next
    case StreamPoll
    with s assms show ?thesis by simp
  next
    case (ReloadLogos q)
    with s assms reload_logos_frame [of cv q g] show ?thesis by simp
  qed
qed

lemma run_frame:
  assumes "last_frame (fst s) \<noteq> None"
  shows "last_frame (fst (run cv rs s)) \<noteq> None"
  using assms
proof (induction rs arbitrary: s)
  case Nil
  then show ?case by simp
next
  case (Cons r rs)
  show ?case
    using Cons.IH [OF handle_frame [OF Cons.prems]] by simp
qed

text \<open>
  Claim C9. Once the frame cell holds a frame, as it does from the first cycle that
  publishes, no start-up, shutdown, loop iteration, statistics request, stream poll or
  reload, in any number and order, empties it again: a viewer's poll never finds the
  cell empty and never pauses for a missing frame, and before the stop event it yields
  the chunk of whatever frame is there when the encoding succeeds.
\<close>

theorem published_frame_stays:
  assumes "last_frame g \<noteq> None"
  shows "last_frame (fst (run cv rs (g, w))) \<noteq> None
     \<and> Sleep 0.02 \<notin> set (mjpeg_generator cv [fst (run cv rs (g, w))])
     \<and> (\<forall>frame jpg.
          \<not> stop_event (fst (run cv rs (g, w)))
          \<and> last_frame (fst (run cv rs (g, w))) = Some frame
          \<and> cv_imencode cv ''.jpg'' frame [IMWRITE_JPEG_QUALITY, JPEG_QUALITY] = Some jpg
          \<longrightarrow> mjpeg_generator cv [fst (run cv rs (g, w))] = [Yield (mjpeg_chunk jpg)])"
proof -
  have "last_frame (fst (run cv rs (g, w))) \<noteq> None"
    using run_frame [of "(g, w)" cv rs] assms by simp
  then show ?thesis
    by (auto split: option.splits)
qed

text \<open>
  The witness starts from the sample cycle that publishes, then has the source drop
  out, a logo reloaded and a viewer poll.
\<close>

lemma sample_cycle_publishes:
  "processing_cycle sample_cv (sample_cycle (True, Some [[1], [9]])) sample_globals sample_locals =
     Inr (sample_globals
           \<lparr>shared_stats := \<lparr>fps = 0, logo1_matches = 2, logo2_matches = 0,
                              last_update = 100, mem_mb = 0\<rparr>,
            last_frame := Some [[0], [10], [1], [9], [5], [1], [9]]\<rparr>,
          sample_locals\<lparr>fps_counter := 1\<rparr>)"
proof -
  have "(1 :: real) < double_mul RATIO_THRESH 9"
    by (rule ratio_accept) simp_all
  moreover have "\<not> (4 :: real) < double_mul RATIO_THRESH 4"
    by (rule ratio_reject) simp_all
  ultimately show ?thesis
    by (simp add: processing_cycle_def and_then_def sample_cv_def sample_sift_def
        sample_cycle_def sample_globals_def sample_locals_def initial_globals_def
        match_and_publish_def knnMatch_def Let_def neighbours_def norm_L2_single
        enumerate_eq_zip upt_rec good_matches_def ratio_test_def
        FRAME_SIZE_def fps_accounting_def update_mem_stat_def)
qed

theorem published_frame_stays_witness:
  "last_frame
     (fst (run sample_cv
        [Iterate (sample_cycle (True, Some [[1], [9]])),
         Iterate (sample_cycle (False, None)),
         ReloadLogos \<lparr>logo1_file = Some ''ab'', logo2_file = None,
                      logo1_path = None, logo2_path = None\<rparr>,
         StreamPoll]
        (sample_globals, Looping sample_locals)))
   = Some [[0], [10], [1], [9], [5], [1], [9]]"
proof -
  let ?g1 = "sample_globals
           \<lparr>shared_stats := \<lparr>fps = 0, logo1_matches = 2, logo2_matches = 0,
                              last_update = 100, mem_mb = 0\<rparr>,
            last_frame := Some [[0], [10], [1], [9], [5], [1], [9]]\<rparr>"
  let ?rs = "[Iterate (sample_cycle (False, None)),
         ReloadLogos \<lparr>logo1_file = Some ''ab'', logo2_file = None,
                      logo1_path = None, logo2_path = None\<rparr>,
         StreamPoll]"
  have a: "last_frame ?g1 \<noteq> None"
    by simp
  have s: "\<not> stop_event sample_globals"
    by (simp add: sample_globals_def initial_globals_def)
  have first: "handle sample_cv (Iterate (sample_cycle (True, Some [[1], [9]])))
       (sample_globals, Looping sample_locals) = (?g1, Looping (sample_locals\<lparr>fps_counter := 1\<rparr>))"
    using s by (simp add: loop_iteration_def sample_cycle_publishes del: One_nat_def)
  have rest: "last_frame (fst (run sample_cv ?rs (?g1, Looping (sample_locals\<lparr>fps_counter := 1\<rparr>))))
       = Some [[0], [10], [1], [9], [5], [1], [9]]"
    using s
    by (simp add: loop_iteration_def processing_cycle_def sample_cycle_def sample_globals_def
        initial_globals_def reload_logos_def decode_slot_def imdecode_def swap_logo1_def
        swap_logo2_def sample_cv_def sample_sift_def Let_def)
  show ?thesis
    using first rest
      published_frame_stays [OF a, of sample_cv ?rs "Looping (sample_locals\<lparr>fps_counter := 1\<rparr>)"]
    by simp
qed

section \<open>Reloading the logos\<close>

text \<open>
  Claim C4 says that the hot reload responds with a client error if and only if no
  supplied input decodes to a valid image, and applies the valid inputs otherwise. The
  handler does so for an input the decoder returns on: an upload of bytes that are no
  image gets the response 400 of lines 282 and 283. An upload of no bytes is an input
  that does not decode either, but \<^verbatim>\<open>cv2.imdecode\<close> raises on it (lines 271 and 278):
  the request ends in a server error, whatever else it supplies, and a valid upload
  for the other slot is not applied.
\<close>

theorem empty_upload_server_error:
  "reload_logos cv
     \<lparr>logo1_file = Some [], logo2_file = f2, logo1_path = p1, logo2_path = p2\<rparr> g
     = (Unhandled CvError, g, [])
   \<and> reload_logos sample_cv
       \<lparr>logo1_file = Some ''ab'', logo2_file = Some [], logo1_path = None, logo2_path = None\<rparr>
       sample_globals
     = (Unhandled CvError, sample_globals, [])
   \<and> reload_logos sample_cv
       \<lparr>logo1_file = Some ''junk'', logo2_file = None, logo1_path = None, logo2_path = None\<rparr>
       sample_globals
     = (HTTPException 400, sample_globals, [])"
  by (simp add: reload_logos_def decode_slot_def imdecode_def sample_cv_def)

lemma swap_logo1_ok:
  assumes "sift_detectAndCompute cv img = Inr (k, d)"
  shows "swap_logo1 cv (Some img) g = (Inr (), g\<lparr>logo1_img := Some img, kp1 := Some k, desc1 := d\<rparr>)"
  using assms by (simp add: swap_logo1_def)

lemma swap_logo2_ok:
  assumes "sift_detectAndCompute cv img = Inr (k, d)"
  shows "swap_logo2 cv (Some img) g = (Inr (), g\<lparr>logo2_img := Some img, kp2 := Some k, desc2 := d\<rparr>)"
  using assms by (simp add: swap_logo2_def)

lemma decode_slot_supplied:
  assumes "file \<noteq> Some []"
  shows "fst (decode_slot cv file path) = Inr (supplied_image cv file path)"
  using assms
  by (simp add: decode_slot_def supplied_image_def imdecode_def split: option.splits)

lemma reload_logos_unfold:
  assumes "decode_slot cv (logo1_file r) (logo1_path r) = (Inr n1, r1)"
    and "decode_slot cv (logo2_file r) (logo2_path r) = (Inr n2, r2)"
  shows "reload_logos cv r g =
     (if n1 = None \<and> n2 = None then (HTTPException 400, g, r1 @ r2)
      else case swap_logo1 cv n1 g of
             (Inl e, g) \<Rightarrow> (Unhandled e, g, r1 @ r2)
           | (Inr u, g) \<Rightarrow>
               (case swap_logo2 cv n2 g of
                  (Inl e, g) \<Rightarrow> (Unhandled e, g, r1 @ r2)
                | (Inr u, g) \<Rightarrow> (Json [(''status'', ''ok'')], g, r1 @ r2)))"
  using assms by (simp add: reload_logos_def Let_def)

lemma reload_logos_client_error_iff:
  assumes "decode_slot cv (logo1_file r) (logo1_path r) = (Inr n1, r1)"
    and "decode_slot cv (logo2_file r) (logo2_path r) = (Inr n2, r2)"
  shows "fst (reload_logos cv r g) = HTTPException 400 \<longleftrightarrow> n1 = None \<and> n2 = None"
  unfolding reload_logos_unfold [OF assms]
  by (auto split: prod.splits sum.splits)

lemma reload_logos_client_error_globals:
  assumes "decode_slot cv (logo1_file r) (logo1_path r) = (Inr n1, r1)"
    and "decode_slot cv (logo2_file r) (logo2_path r) = (Inr n2, r2)"
    and "n1 = None \<and> n2 = None"
  shows "fst (snd (reload_logos cv r g)) = g"
  unfolding reload_logos_unfold [OF assms(1,2)] using assms(3) by simp

lemma swap_logo1_slots:
  assumes "\<And>img. n1 = Some img \<Longrightarrow> \<exists>kd. sift_detectAndCompute cv img = Inr kd"
  shows "\<exists>g1. swap_logo1 cv n1 g = (Inr (), g1) \<and> slot1_is cv n1 g g1
     \<and> logo2_img g1 = logo2_img g \<and> kp2 g1 = kp2 g \<and> desc2 g1 = desc2 g"
proof (cases n1)
  case None
  then show ?thesis by (simp add: swap_logo1_def slot1_is_def)
next
  case (Some img)
  with assms obtain k d where "sift_detectAndCompute cv img = Inr (k, d)" by fastforce
  with Some show ?thesis by (simp add: swap_logo1_ok slot1_is_def)
qed

lemma swap_logo2_slots:
  assumes "\<And>img. n2 = Some img \<Longrightarrow> \<exists>kd. sift_detectAndCompute cv img = Inr kd"
  shows "\<exists>g2. swap_logo2 cv n2 g = (Inr (), g2) \<and> slot2_is cv n2 g g2
     \<and> logo1_img g2 = logo1_img g \<and> kp1 g2 = kp1 g \<and> desc1 g2 = desc1 g"
proof (cases n2)
  case None
  then show ?thesis by (simp add: swap_logo2_def slot2_is_def)
next
  case (Some img)
  with assms obtain k d where "sift_detectAndCompute cv img = Inr (k, d)" by fastforce
  with Some show ?thesis by (simp add: swap_logo2_ok slot2_is_def)
qed

lemma reload_logos_valid:
  assumes s1: "decode_slot cv (logo1_file r) (logo1_path r) = (Inr n1, r1)"
    and s2: "decode_slot cv (logo2_file r) (logo2_path r) = (Inr n2, r2)"
    and valid: "n1 \<noteq> None \<or> n2 \<noteq> None"
    and e1: "\<And>img. n1 = Some img \<Longrightarrow> \<exists>kd. sift_detectAndCompute cv img = Inr kd"
    and e2: "\<And>img. n2 = Some img \<Longrightarrow> \<exists>kd. sift_detectAndCompute cv img = Inr kd"
  shows "fst (reload_logos cv r g) = Json [(''status'', ''ok'')]
     \<and> slot1_is cv n1 g (fst (snd (reload_logos cv r g)))
     \<and> slot2_is cv n2 g (fst (snd (reload_logos cv r g)))"
proof -
  obtain g1 where g1: "swap_logo1 cv n1 g = (Inr (), g1)" "slot1_is cv n1 g g1"
    "logo2_img g1 = logo2_img g" "kp2 g1 = kp2 g" "desc2 g1 = desc2 g"
    using swap_logo1_slots [OF e1, of n1 g] by auto
  obtain g2 where g2: "swap_logo2 cv n2 g1 = (Inr (), g2)" "slot2_is cv n2 g1 g2"
    "logo1_img g2 = logo1_img g1" "kp1 g2 = kp1 g1" "desc1 g2 = desc1 g1"
    using swap_logo2_slots [OF e2, of n2 g1] by auto
  have r: "reload_logos cv r g = (Json [(''status'', ''ok'')], g2, r1 @ r2)"
    unfolding reload_logos_unfold [OF s1 s2] using valid g1(1) g2(1) by auto
  have "slot1_is cv n1 g g2"
    using g1(2) g2(3,4,5) by (simp add: slot1_is_def split: option.splits)
  moreover have "slot2_is cv n2 g g2"
    using g2(2) g1(3,4,5) by (simp add: slot2_is_def split: option.splits)
  ultimately show ?thesis
    using r by simp
qed

text \<open>
  Extra X3. Let no upload be empty, let \<open>n1\<close> and \<open>n2\<close> be the images the inputs of the
  two slots stand for, and let feature extraction return on them. The hot reload
  responds with the client error 400 if and only if neither is an image, and then the
  globals are unchanged; otherwise it responds with success, every slot with an image
  holds it with its keypoints and descriptors, and every other slot keeps its entry.
\<close>

theorem reload_logos_contract:
  assumes f1: "logo1_file r \<noteq> Some []" and f2: "logo2_file r \<noteq> Some []"
    and n1: "n1 = supplied_image cv (logo1_file r) (logo1_path r)"
    and n2: "n2 = supplied_image cv (logo2_file r) (logo2_path r)"
    and e1: "\<And>img. n1 = Some img \<Longrightarrow> \<exists>kd. sift_detectAndCompute cv img = Inr kd"
    and e2: "\<And>img. n2 = Some img \<Longrightarrow> \<exists>kd. sift_detectAndCompute cv img = Inr kd"
  shows "(fst (reload_logos cv r g) = HTTPException 400 \<longleftrightarrow> n1 = None \<and> n2 = None)
     \<and> (if n1 = None \<and> n2 = None
        then fst (snd (reload_logos cv r g)) = g
        else fst (reload_logos cv r g) = Json [(''status'', ''ok'')]
           \<and> slot1_is cv n1 g (fst (snd (reload_logos cv r g)))
           \<and> slot2_is cv n2 g (fst (snd (reload_logos cv r g))))"
proof -
  obtain r1 where s1: "decode_slot cv (logo1_file r) (logo1_path r) = (Inr n1, r1)"
    using decode_slot_supplied [OF f1, of cv "logo1_path r"] n1
    by (cases "decode_slot cv (logo1_file r) (logo1_path r)") simp
  obtain r2 where s2: "decode_slot cv (logo2_file r) (logo2_path r) = (Inr n2, r2)"
    using decode_slot_supplied [OF f2, of cv "logo2_path r"] n2
    by (cases "decode_slot cv (logo2_file r) (logo2_path r)") simp
  show ?thesis
  proof (cases "n1 = None \<and> n2 = None")
    case True
    then show ?thesis
      using reload_logos_client_error_iff [OF s1 s2, of g]
        reload_logos_client_error_globals [OF s1 s2 True, of g]
      by simp
  next
    case False
    then have "n1 \<noteq> None \<or> n2 \<noteq> None"
      by simp
    from reload_logos_valid [OF s1 s2 this e1 e2, of g] False
    show ?thesis
      using reload_logos_client_error_iff [OF s1 s2, of g] by auto
  qed
qed

text \<open>
  The witness is the spec's scenario 3 with a path: the file named for logo 1 decodes,
  the bytes uploaded for logo 2 do not.
\<close>

theorem reload_logos_contract_witness:
  "supplied_image sample_cv None (Some ''logo.jpg'') = Some [[1, 2]]
   \<and> supplied_image sample_cv (Some ''junk'') None = None
   \<and> sift_detectAndCompute sample_cv [[1, 2]] = Inr ([(2, 0)], Some [[1, 2]])
   \<and> reload_logos sample_cv
       \<lparr>logo1_file = None, logo2_file = Some ''junk'',
        logo1_path = Some ''logo.jpg'', logo2_path = None\<rparr>
       sample_globals
     = (Json [(''status'', ''ok'')],
        sample_globals
          \<lparr>logo1_img := Some [[1, 2]], kp1 := Some [(2, 0)], desc1 := Some [[1, 2]]\<rparr>,
        [''logo.jpg''])"
proof -
  let ?r = "\<lparr>logo1_file = None, logo2_file = Some ''junk'',
        logo1_path = Some ''logo.jpg'', logo2_path = None\<rparr>"
  have f1: "logo1_file ?r \<noteq> Some []" and f2: "logo2_file ?r \<noteq> Some []"
    by simp_all
  have n1: "Some [[1, 2]] = supplied_image sample_cv (logo1_file ?r) (logo1_path ?r)"
    by (simp add: supplied_image_def sample_cv_def)
  have n2: "None = supplied_image sample_cv (logo2_file ?r) (logo2_path ?r)"
    by (simp add: supplied_image_def sample_cv_def)
  have e: "sift_detectAndCompute sample_cv [[1, 2]] = Inr ([(2, 0)], Some [[1, 2]])"
    by (simp add: sample_cv_def sample_sift_def)
  have e1: "\<exists>kd. sift_detectAndCompute sample_cv img = Inr kd"
    if "Some [[1, 2]] = Some img" for img
    using that e by auto
  have e2: "\<exists>kd. sift_detectAndCompute sample_cv img = Inr kd"
    if "None = Some img" for img
    using that by simp
  have v: "reload_logos sample_cv ?r sample_globals
     = (Json [(''status'', ''ok'')],
        sample_globals
          \<lparr>logo1_img := Some [[1, 2]], kp1 := Some [(2, 0)], desc1 := Some [[1, 2]]\<rparr>,
        [''logo.jpg''])"
    by (simp add: reload_logos_def decode_slot_def imdecode_def swap_logo1_def swap_logo2_def
        sample_cv_def sample_sift_def)
  show ?thesis
    using n1 [symmetric] n2 [symmetric] e v
      reload_logos_contract [OF f1 f2 n1 n2 e1 e2, of sample_globals]
    by simp
qed

lemma decode_slot_file: "decode_slot cv (Some data) path = (imdecode cv data, [])"
  by (simp add: decode_slot_def)

lemma reload_logos_reads_file1:
  assumes "logo1_file r = Some data"
  shows "snd (snd (reload_logos cv r g)) =
     (case imdecode cv data of
        Inl e \<Rightarrow> []
      | Inr n \<Rightarrow> snd (decode_slot cv (logo2_file r) (logo2_path r)))"
  using assms
  by (simp add: reload_logos_def decode_slot_file Let_def split: prod.splits sum.splits)

lemma reload_logos_reads_file2:
  assumes "logo2_file r = Some data"
  shows "snd (snd (reload_logos cv r g)) = snd (decode_slot cv (logo1_file r) (logo1_path r))"
  using assms
  by (simp add: reload_logos_def decode_slot_file Let_def split: prod.splits sum.splits)

text \<open>
  Claim C10. When a file is uploaded for a slot, the slot's image is what the uploaded
  bytes decode to, also when that is nothing, and the handler reads no path for this
  slot: the paths it reads are those of the other slot alone, and none at all when the
  decoder raises on the upload for slot 1.
\<close>

theorem uploaded_file_precedence:
  "(logo1_file r = Some data \<longrightarrow>
      decode_slot cv (logo1_file r) (logo1_path r) = (imdecode cv data, [])
      \<and> snd (snd (reload_logos cv r g)) =
          (case imdecode cv data of
             Inl e \<Rightarrow> []
           | Inr n \<Rightarrow> snd (decode_slot cv (logo2_file r) (logo2_path r))))
   \<and> (logo2_file r = Some data \<longrightarrow>
      decode_slot cv (logo2_file r) (logo2_path r) = (imdecode cv data, [])
      \<and> snd (snd (reload_logos cv r g)) = snd (decode_slot cv (logo1_file r) (logo1_path r)))"
  by (simp add: reload_logos_reads_file1 reload_logos_reads_file2 decode_slot_file)

text \<open>
  In the witness the upload for logo 1 does not decode and the path given with it
  names a file that exists: the path is not read and the request is refused.
\<close>

theorem uploaded_file_precedence_witness:
  "imdecode sample_cv ''junk'' = Inr None
   \<and> cv_imread sample_cv ''logo.jpg'' = Some [[1, 2]]
   \<and> reload_logos sample_cv
       \<lparr>logo1_file = Some ''junk'', logo2_file = None,
        logo1_path = Some ''logo.jpg'', logo2_path = None\<rparr> sample_globals
     = (HTTPException 400, sample_globals, [])"
  using uploaded_file_precedence [of "\<lparr>logo1_file = Some ''junk'', logo2_file = None,
        logo1_path = Some ''logo.jpg'', logo2_path = None\<rparr>" "''junk''" sample_cv
        sample_globals]
  by (simp add: reload_logos_def decode_slot_def imdecode_def sample_cv_def)

section \<open>A reload during a cycle\<close>

lemma schedule_append: "schedule (xs @ ys) s = schedule ys (schedule xs s)"
  by (induction xs arbitrary: s) simp_all

lemma schedule_swap_logo1:
  "fst (schedule (swap_logo1_accesses cv img) (g, s)) = snd (swap_logo1 cv (Some img) g)"
  by (simp add: swap_logo1_accesses_def swap_logo1_def split: sum.splits prod.splits)

lemma schedule_swap_logo1_seen:
  "snd (schedule (swap_logo1_accesses cv img) (g, s)) = s"
  by (simp add: swap_logo1_accesses_def split: sum.splits prod.splits)

lemma schedule_cycle:
  "schedule cycle_logo1_accesses (g, s) = (g, entry1_of g)"
  by (simp add: cycle_logo1_accesses_def entry1_of_def)

lemma cycle_before_swap:
  "snd (schedule (cycle_logo1_accesses @ swap_logo1_accesses cv img) (g, nothing_seen)) = entry1_of g"
  by (simp add: schedule_append schedule_cycle swap_logo1_accesses_def split: sum.splits prod.splits)

lemma cycle_after_swap:
  "snd (schedule (swap_logo1_accesses cv img @ cycle_logo1_accesses) (g, nothing_seen))
     = entry1_of (snd (swap_logo1 cv (Some img) g))"
proof -
  obtain g' s' where a: "schedule (swap_logo1_accesses cv img) (g, nothing_seen) = (g', s')"
    by (cases "schedule (swap_logo1_accesses cv img) (g, nothing_seen)")
  then have "g' = snd (swap_logo1 cv (Some img) g)"
    using schedule_swap_logo1 [of cv img g nothing_seen] by simp
  with a show ?thesis
    by (simp add: schedule_append schedule_cycle)
qed

text \<open>
  Claim C6 says that a cycle sees each reference entry either entirely old or entirely
  new, because the swap is guarded. No lock guards the three variables of an entry,
  while \<^verbatim>\<open>frame_lock\<close> and \<^verbatim>\<open>stats_lock\<close> guard the frame and the statistics. In the
  schedule below the handler has stored the new image of logo 1 and is still computing
  its features when the cycle matches and draws: the cycle sees the new image with the
  old keypoints and descriptors, which is neither the old entry nor the new one.
\<close>

theorem torn_registry_read:
  "[Store_logo1_img (Some [[7]]), Load_desc1, Load_logo1_img, Load_kp1,
    Store_kp1 (Some [(1, 0)]), Store_desc1 (Some [[7]])]
     \<in> set (interleavings (swap_logo1_accesses sample_cv [[7]]) cycle_logo1_accesses)
   \<and> snd (schedule
        [Store_logo1_img (Some [[7]]), Load_desc1, Load_logo1_img, Load_kp1,
         Store_kp1 (Some [(1, 0)]), Store_desc1 (Some [[7]])]
        (sample_globals, nothing_seen))
      = \<lparr>seen_desc1 = Some (Some [[0], [10]]),
         seen_logo1_img = Some (Some [[7]]),
         seen_kp1 = Some (Some [(1, 0), (1, 0)])\<rparr>
   \<and> entry1_of sample_globals
      = \<lparr>seen_desc1 = Some (Some [[0], [10]]),
         seen_logo1_img = Some (Some [[0], [10]]),
         seen_kp1 = Some (Some [(1, 0), (1, 0)])\<rparr>
   \<and> entry1_of (snd (swap_logo1 sample_cv (Some [[7]]) sample_globals))
      = \<lparr>seen_desc1 = Some (Some [[7]]),
         seen_logo1_img = Some (Some [[7]]),
         seen_kp1 = Some (Some [(1, 0)])\<rparr>"
  by (simp add: swap_logo1_accesses_def cycle_logo1_accesses_def sample_cv_def sample_sift_def
      sample_globals_def initial_globals_def nothing_seen_def entry1_of_def swap_logo1_def)

text \<open>
  Extra X1. When the stores of a reload and the loads of a cycle do not interleave, the
  cycle sees a whole entry: the old one when it runs first, the new one when the
  reload runs first.
\<close>

theorem unshared_schedule_whole_entry:
  "snd (schedule (cycle_logo1_accesses @ swap_logo1_accesses cv img) (g, nothing_seen))
     = entry1_of g
   \<and> snd (schedule (swap_logo1_accesses cv img @ cycle_logo1_accesses) (g, nothing_seen))
     = entry1_of (snd (swap_logo1 cv (Some img) g))"
  by (simp add: cycle_before_swap cycle_after_swap)

section \<open>Stopping the loop\<close>

text \<open>
  Extra X2. With the stop event set, the processing loop ends at its next test,
  whatever the source would deliver, and releases the capture when there is one.
\<close>

theorem stop_event_ends_loop:
  assumes "stop_event g"
  shows "processing_loop cv (c # cs) g l
     = Stopped (if cap_set g then g\<lparr>cap_released := True\<rparr> else g)"
  using assms by (simp add: loop_iteration_def)

theorem stop_event_ends_loop_witness:
  "stop_event (shutdown_event sample_globals)
   \<and> cap_released
       (case processing_loop sample_cv [sample_cycle (True, Some [[1]])]
               (shutdown_event sample_globals) sample_locals of
          Stopped g \<Rightarrow> g | Running g l \<Rightarrow> g | Crashed e g \<Rightarrow> g)"
proof -
  have a: "stop_event (shutdown_event sample_globals)"
    by (simp add: shutdown_event_def)
  show ?thesis
    using a stop_event_ends_loop [OF a, of sample_cv "sample_cycle (True, Some [[1]])" "[]"
        sample_locals]
    by (simp add: shutdown_event_def sample_globals_def)
qed

end
